theory Spec2Isabelle
  imports
    Complex_Main
    "HOL-Library.Sublist"
    "HOL-Library.Char_ord"
    "HOL-Library.List_Lexorder"
begin

section \<open>Image preprocessing (preprocess.py)\<close>

text \<open>
  An image is the decoded pixel buffer, a list of rows of pixels; the pixel type is left
  open (a grey value or a BGR triple). \<open>shape\<close> is numpy's \<open>image.shape[:2]\<close>,
  the pair (height, width).
\<close>

type_synonym 'px image = "'px list list"

definition shape :: "'px image \<Rightarrow> nat \<times> nat" where
  "shape img = (length img, (case img of [] \<Rightarrow> 0 | r # _ \<Rightarrow> length r))"

text \<open>
  The OpenCV calls the preprocessor makes are library code. They are passed in as a record:
  \<open>imread\<close> gives \<open>None\<close> for a file that cannot be decoded; \<open>hough_angles\<close> stands for
  the chain grey conversion, Otsu threshold, Canny and \<open>cv2.HoughLines\<close> followed by
  \<open>np.degrees(theta)\<close> of every line, \<open>None\<close> when HoughLines reports no line at all;
  \<open>bilateralFilter\<close> is the filter call of \<open>remove_noise\<close>; \<open>clahe_lab\<close> is the
  colour conversion and CLAHE sequence of \<open>enhance_contrast\<close>; \<open>warpAffine\<close> is the
  affine fall-back of \<open>rotate_image\<close> for an angle that is no quarter turn. Angles are
  real numbers: only comparisons are made on them.
\<close>

record 'px cv2 =
  imread :: "string \<Rightarrow> 'px image option"
  hough_angles :: "'px image \<Rightarrow> real list option"
  bilateralFilter :: "'px image \<Rightarrow> 'px image"
  clahe_lab :: "'px image \<Rightarrow> 'px image"
  warpAffine :: "'px image \<Rightarrow> real \<Rightarrow> 'px image"

text \<open>
  \<open>np.histogram(angles, bins=edges)\<close>: one count per pair of neighbouring edges; every bin
  is half open, the last one is closed on both sides, and a value outside the edges is
  counted nowhere.
\<close>

fun histogram :: "real list \<Rightarrow> real list \<Rightarrow> nat list" where
  "histogram xs [lo, hi] = [length (filter (\<lambda>a. lo \<le> a \<and> a \<le> hi) xs)]"
| "histogram xs (lo # hi # es) =
     length (filter (\<lambda>a. lo \<le> a \<and> a < hi) xs) # histogram xs (hi # es)"
| "histogram xs es = []"

text \<open>
  \<open>np.argmax\<close>: the index of the first greatest entry. It is only applied to the five
  counts of the histogram, never to an empty list (where numpy raises).
\<close>

fun argmax :: "nat list \<Rightarrow> nat" where
  "argmax [] = 0"
| "argmax [x] = 0"
| "argmax (x # xs) = (let j = argmax xs in if x < xs ! j then Suc j else 0)"

definition bins :: "real list" where
  "bins = [0, 45, 135, 225, 315, 360]"

definition detect_orientation :: "'px cv2 \<Rightarrow> 'px image \<Rightarrow> real" where
  "detect_orientation cv img =
     (case hough_angles cv img of
        None \<Rightarrow> 0
      | Some angles \<Rightarrow>
          (let hist = histogram angles bins;
               dominant_bin = argmax hist
           in if dominant_bin = 0 \<or> dominant_bin = 4 then 0
              else if dominant_bin = 1 then 90
              else if dominant_bin = 2 then 180
              else 270))"

text \<open>
  \<open>cv2.rotate\<close> for the three quarter turns, by the index law of each:
  clockwise \<open>dst(i, j) = src(h - 1 - j, i)\<close>, half turn \<open>dst(i, j) = src(h - 1 - i, w - 1 - j)\<close>,
  counter-clockwise \<open>dst(i, j) = src(j, w - 1 - i)\<close>, for a source of \<open>h\<close> rows and
  \<open>w\<close> columns.
\<close>

definition rotate_90_clockwise :: "'px image \<Rightarrow> 'px image" where
  "rotate_90_clockwise src =
     (let (h, w) = shape src
      in map (\<lambda>i. map (\<lambda>j. src ! (h - 1 - j) ! i) [0..<h]) [0..<w])"

definition rotate_180 :: "'px image \<Rightarrow> 'px image" where
  "rotate_180 src =
     (let (h, w) = shape src
      in map (\<lambda>i. map (\<lambda>j. src ! (h - 1 - i) ! (w - 1 - j)) [0..<w]) [0..<h])"

definition rotate_90_counterclockwise :: "'px image \<Rightarrow> 'px image" where
  "rotate_90_counterclockwise src =
     (let (h, w) = shape src
      in map (\<lambda>i. map (\<lambda>j. src ! j ! (w - 1 - i)) [0..<h]) [0..<w])"

definition rotate_image :: "'px cv2 \<Rightarrow> 'px image \<Rightarrow> real \<Rightarrow> 'px image" where
  "rotate_image cv img angle =
     (if angle = 0 then img
      else if angle = 90 then rotate_90_clockwise img
      else if angle = 180 then rotate_180 img
      else if angle = 270 then rotate_90_counterclockwise img
      else warpAffine cv img angle)"

definition enhance_contrast :: "'px cv2 \<Rightarrow> 'px image \<Rightarrow> 'px image" where
  "enhance_contrast cv img = clahe_lab cv img"

definition remove_noise :: "'px cv2 \<Rightarrow> 'px image \<Rightarrow> 'px image" where
  "remove_noise cv img = bilateralFilter cv img"

text \<open>
  The entries of \<open>metadata['steps']\<close>. The f-string \<open>rotated_{angle}deg\<close> is the
  constructor \<open>Rotated angle\<close>; the two fixed strings are the other constructors.
\<close>

datatype step = Rotated real | Denoised | ContrastEnhanced

record metadata =
  original_path :: string
  original_size :: "nat \<times> nat"
  rotation_applied :: real
  steps :: "step list"
  final_size :: "nat \<times> nat"

text \<open>
  \<open>process_image\<close> raises ValueError when the file cannot be loaded (\<open>Inl\<close> with the
  message) and otherwise returns the processed image with its metadata. The three stages
  update the image, \<open>rotation_applied\<close> and \<open>steps\<close> in the order of the source.
\<close>

definition process_image ::
  "'px cv2 \<Rightarrow> string \<Rightarrow> bool \<Rightarrow> bool \<Rightarrow> bool \<Rightarrow> string + ('px image \<times> metadata)" where
  "process_image cv image_path auto_orient enhance denoise =
     (case imread cv image_path of
        None \<Rightarrow> Inl (''Could not load image: '' @ image_path)
      | Some image0 \<Rightarrow>
          (let (image1, rotation1, steps1) =
                 (if auto_orient then
                    (let angle = detect_orientation cv image0
                     in if angle \<noteq> 0
                        then (rotate_image cv image0 angle, angle, [Rotated angle])
                        else (image0, 0, []))
                  else (image0, 0, []));
               (image2, steps2) =
                 (if denoise then (remove_noise cv image1, steps1 @ [Denoised])
                  else (image1, steps1));
               (image3, steps3) =
                 (if enhance then (enhance_contrast cv image2, steps2 @ [ContrastEnhanced])
                  else (image2, steps2))
           in Inr (image3,
                \<lparr>original_path = image_path, original_size = shape image0,
                 rotation_applied = rotation1, steps = steps3,
                 final_size = shape image3\<rparr>)))"

section \<open>Vision extraction client (ocr\_vision.py)\<close>

text \<open>
  Python strings are lists of characters. \<open>py_in sub s\<close> is \<open>sub in s\<close>,
  \<open>py_split sep s\<close> is \<open>s.split(sep)\<close> for a non-empty separator (occurrences are
  taken from the left and do not overlap), \<open>py_strip\<close> is \<open>s.strip()\<close>. A character
  is a code point below 256; \<open>isspace\<close> is \<open>str.isspace\<close> there: the code points 9 to
  13, 28 to 32, 133 and 160.
\<close>

fun py_in :: "string \<Rightarrow> string \<Rightarrow> bool" where
  "py_in sub [] = (sub = [])"
| "py_in sub (c # cs) = (prefix sub (c # cs) \<or> py_in sub cs)"

fun py_split :: "string \<Rightarrow> string \<Rightarrow> string list" where
  "py_split sep [] = [[]]"
| "py_split sep (c # cs) =
     (if prefix sep (c # cs) then [] # py_split sep (drop (length sep - 1) cs)
      else (case py_split sep cs of [] \<Rightarrow> [[c]] | p # ps \<Rightarrow> (c # p) # ps))"

definition isspace :: "char \<Rightarrow> bool" where
  "isspace c =
     (let n = (of_char c :: nat)
      in (9 \<le> n \<and> n \<le> 13) \<or> (28 \<le> n \<and> n \<le> 32) \<or> n = 133 \<or> n = 160)"

definition py_strip :: "string \<Rightarrow> string" where
  "py_strip s = rev (dropWhile isspace (rev (dropWhile isspace s)))"

text \<open>
  JSON values as \<open>json.loads\<close> returns them; a Python dict is an association list in
  insertion order, read with \<open>map_of\<close> and written with \<open>dict_set\<close> (an existing key
  keeps its place).

  Floats are real numbers, and the arithmetic of the cost is exact here. \<open>round(x, n)\<close>
  rounds the binary float that stands for \<open>x\<close>. Off a decimal tie that is the decimal
  of \<open>n\<close> digits nearest to \<open>x\<close>. On a tie the float lies on one side of the tie (or is
  the tie itself, which then goes to the even neighbour), and exact arithmetic cannot tell
  which: \<open>py_round up x n\<close> takes the upper neighbour when \<open>up\<close> holds and the lower
  one otherwise.
\<close>

datatype json =
    JNull
  | JBool bool
  | JInt int
  | JFloat real
  | JStr string
  | JArr "json list"
  | JObj "(string \<times> json) list"

type_synonym dict = "(string \<times> json) list"

fun dict_set :: "dict \<Rightarrow> string \<Rightarrow> json \<Rightarrow> dict" where
  "dict_set [] k v = [(k, v)]"
| "dict_set ((k', v') # d) k v = (if k' = k then (k, v) # d else (k', v') # dict_set d k v)"

definition py_round :: "bool \<Rightarrow> real \<Rightarrow> nat \<Rightarrow> real" where
  "py_round up x n =
     (let y = x * 10 ^ n; f = \<lfloor>y\<rfloor>; d = y - of_int f
      in of_int (if d < 1 / 2 then f else if 1 / 2 < d then f + 1 else if up then f + 1 else f)
           / 10 ^ n)"

text \<open>\<open>len(v)\<close> is defined on strings, lists and dicts and raises TypeError elsewhere.\<close>

fun has_len :: "json \<Rightarrow> bool" where
  "has_len (JStr s) = True"
| "has_len (JArr xs) = True"
| "has_len (JObj d) = True"
| "has_len v = False"

text \<open>The fields of a \<open>VisionOCR\<close> object that the methods read or write.\<close>

record vision_ocr =
  model :: string
  total_cost :: real

definition default_prompt :: string where
  \<open>default_prompt =
     ''\<newline>You are analyzing handwritten notes for a phenomenology student named Harvey working on PHIL 402.\<newline>''
   @ ''\<newline>Please:\<newline>''
   @ ''1. Transcribe all handwritten text accurately (preserve formatting, lists, emphasis)\<newline>''
   @ ''2. Identify key concepts and themes\<newline>''
   @ ''3. Note any questions, insights, or connections mentioned\<newline>''
   @ ''4. Suggest relevant tags (e.g., topics, philosophers, course concepts)\<newline>''
   @ ''5. Rate the quality/clarity of the notes (1-5 scale)\<newline>''
   @ ''\<newline>Format your response as structured JSON with these fields:\<newline>''
   @ ''{\<newline>''
   @ ''  "transcription": "Full text transcription...",\<newline>''
   @ ''  "key_concepts": ["concept1", "concept2"],\<newline>''
   @ ''  "themes": ["theme1", "theme2"],\<newline>''
   @ ''  "questions_or_insights": ["question/insight1"],\<newline>''
   @ ''  "suggested_tags": ["tag1", "tag2"],\<newline>''
   @ ''  "quality_rating": 4,\<newline>''
   @ ''  "notes": "Any additional observations..."\<newline>''
   @ ''}\<newline>''\<close>

text \<open>
  The text handed to \<open>json.loads\<close>: the inside of the first fence tagged json, else of
  the first fence, else the whole body. The index 1 exists because the separator occurs
  (lemma \<open>py_split_second\<close> below).
\<close>

definition select_json_str :: "string \<Rightarrow> string" where
  "select_json_str content =
     (if py_in ''```json'' content
        then py_strip (py_split ''```'' (py_split ''```json'' content ! 1) ! 0)
      else if py_in ''```'' content
        then py_strip (py_split ''```'' (py_split ''```'' content ! 1) ! 0)
      else content)"

definition fallback_record :: "string \<Rightarrow> json" where
  "fallback_record content =
     JObj [(''transcription'', JStr content),
           (''key_concepts'', JArr []),
           (''themes'', JArr []),
           (''questions_or_insights'', JArr []),
           (''suggested_tags'', JArr []),
           (''quality_rating'', JInt 3),
           (''notes'', JStr ''Response was not in expected JSON format'')]"

record token_usage =
  prompt_tokens :: int
  completion_tokens :: int
  total_tokens :: int

record response =
  content :: string
  usage :: token_usage

definition call_cost :: "token_usage \<Rightarrow> real" where
  "call_cost u =
     (let input_cost = (of_int (prompt_tokens u) / 1000000) * 2.50;
          output_cost = (of_int (completion_tokens u) / 1000000) * 10.00
      in input_cost + output_cost)"

section \<open>Ingestion pipeline (ingest\_notes.py)\<close>

text \<open>
  The result dict of \<open>process_single_image\<close>, a key that is not set being \<open>None\<close>, and
  the summary dict of \<open>process_directory\<close>.
\<close>

record processing_result =
  source_image :: string
  timestamp :: string
  success :: bool
  preprocessed_image :: "string option"
  preprocessing :: "metadata option"
  ocr :: "dict option"
  output_markdown :: "string option"
  output_json :: "string option"
  error :: "string option"

record batch_summary =
  batch_timestamp :: string
  total_images :: nat
  successful :: nat
  failed :: nat
  batch_total_cost :: real
  results :: "processing_result list"

text \<open>
  What a written file holds. \<open>json.dumps\<close> of a result or of a summary is kept as the
  value it serialises.
\<close>

datatype file_content =
    Text string
  | ResultJson processing_result
  | SummaryJson batch_summary

text \<open>
  How \<open>Path.write_text\<close> can fail: the file cannot be opened, and nothing is created; or
  the write fails after the file was opened, and the file stays behind with what was
  written of it (nothing, on a full disk).
\<close>

datatype write_failure =
    RefusedAtOpen string
  | FailedAfterOpen string string

text \<open>
  The collaborators outside the repository. \<open>vision_call model prompt path\<close> stands for
  reading and encoding the file and the chat completion request, \<open>Inl\<close> when either raises;
  \<open>json_loads\<close> is \<open>None\<close> on JSONDecodeError; \<open>now_iso\<close> and \<open>now_stamp\<close> are the
  clock as \<open>isoformat()\<close> and as \<open>strftime("%Y%m%d_%H%M%S")\<close>, taken as constant during
  a run; \<open>create_markdown\<close> stands for the rendering of \<open>_create_markdown\<close> (yaml.dump
  and str.join), which raises TypeError on a part that is no string; \<open>write_error\<close>
  says on which paths \<open>write_text\<close> fails and how, \<open>save_error\<close> on which paths
  \<open>save_processed_image\<close> raises; \<open>mkstemp\<close> is the temporary file's name;
  \<open>glob\<close> is \<open>directory.glob(pattern)\<close>; \<open>tie_up client u x\<close> says to which side
  \<open>round\<close> goes when \<open>x\<close> is a decimal tie, in the call that found the client as
  given and got the token counts \<open>u\<close>.
\<close>

record services =
  vision_call :: "string \<Rightarrow> string \<Rightarrow> string \<Rightarrow> string + response"
  json_loads :: "string \<Rightarrow> json option"
  now_iso :: string
  now_stamp :: string
  create_markdown :: "dict \<Rightarrow> string \<Rightarrow> string + string"
  write_error :: "string \<Rightarrow> write_failure option"
  save_error :: "string \<Rightarrow> string option"
  mkstemp :: string
  glob :: "string \<Rightarrow> string \<Rightarrow> string list"
  tie_up :: "vision_ocr \<Rightarrow> token_usage \<Rightarrow> real \<Rightarrow> bool"

text \<open>
  \<open>extract_text_and_analyze\<close> returns the record or raises, and in both cases leaves the
  client with its running cost. A response that decodes to something that is no dict
  raises at the assignment of \<open>result['metadata']\<close>, before the cost is added; a
  transcription without a length raises at the log line, after the cost was added.
\<close>

definition extract_text_and_analyze ::
  "services \<Rightarrow> vision_ocr \<Rightarrow> string \<Rightarrow> string option \<Rightarrow> (string + dict) \<times> vision_ocr" where
  "extract_text_and_analyze sv self image_path analysis_prompt =
     (let prompt = (case analysis_prompt of None \<Rightarrow> default_prompt | Some p \<Rightarrow> p)
      in case vision_call sv (model self) prompt image_path of
           Inl e \<Rightarrow> (Inl e, self)
         | Inr response \<Rightarrow>
             (let json_str = select_json_str (content response);
                  result = (case json_loads sv json_str of
                              Some v \<Rightarrow> v
                            | None \<Rightarrow> fallback_record (content response))
              in case result of
                   JObj d \<Rightarrow>
                     (let u = usage response;
                          self' = self\<lparr>total_cost := total_cost self + call_cost u\<rparr>;
                          md = [(''model'', JStr (model self)),
                                (''timestamp'', JStr (now_iso sv)),
                                (''image_path'', JStr image_path),
                                (''tokens_used'',
                                   JObj [(''prompt'', JInt (prompt_tokens u)),
                                         (''completion'', JInt (completion_tokens u)),
                                         (''total'', JInt (total_tokens u))]),
                                (''estimated_cost'',
                                   JFloat (py_round (tie_up sv self u (call_cost u))
                                             (call_cost u) 4)),
                                (''total_session_cost'',
                                   JFloat (py_round (tie_up sv self u (total_cost self'))
                                             (total_cost self') 4))];
                          d' = dict_set d ''metadata'' (JObj md)
                      in if has_len (case map_of d' ''transcription'' of
                                       None \<Rightarrow> JStr [] | Some t \<Rightarrow> t)
                         then (Inr d', self')
                         else (Inl ''object has no len()'', self'))
                 | _ \<Rightarrow> (Inl ''object does not support item assignment'', self)))"

text \<open>
  \<open>batch_process\<close>: the calls one after the other on the same client; a call that raises
  leaves an error dict in the list.
\<close>

fun batch_process ::
  "services \<Rightarrow> vision_ocr \<Rightarrow> string list \<Rightarrow> string option \<Rightarrow> dict list \<times> vision_ocr" where
  "batch_process sv self [] analysis_prompt = ([], self)"
| "batch_process sv self (image_path # image_paths) analysis_prompt =
     (let (r, self1) = extract_text_and_analyze sv self image_path analysis_prompt;
          result = (case r of
                      Inr d \<Rightarrow> d
                    | Inl e \<Rightarrow> [(''error'', JStr e), (''image_path'', JStr image_path),
                                (''metadata'', JObj [(''timestamp'', JStr (now_iso sv))])]);
          (rs, self2) = batch_process sv self1 image_paths analysis_prompt
      in (result # rs, self2))"

text \<open>
  Paths are strings. \<open>path_name\<close> and \<open>path_stem\<close> are pathlib's \<open>name\<close> and
  \<open>stem\<close> (the name without its last suffix, a leading or a final dot being no suffix);
  \<open>path_join\<close> is the operator \<open>/\<close> with a relative right-hand side.
\<close>

definition path_name :: "string \<Rightarrow> string" where
  "path_name p = rev (takeWhile (\<lambda>c. c \<noteq> CHR ''/'') (rev p))"

definition path_stem :: "string \<Rightarrow> string" where
  "path_stem p =
     (let name = path_name p;
          i = length name - length (takeWhile (\<lambda>c. c \<noteq> CHR ''.'') (rev name)) - 1
      in if CHR ''.'' \<in> set name \<and> 0 < i \<and> i < length name - 1 then take i name else name)"

definition path_join :: "string \<Rightarrow> string \<Rightarrow> string" where
  "path_join d n = d @ ''/'' @ n"

text \<open>
  The pipeline object and the state the pipeline changes: the client with its running
  cost, the text files written and the image files written.
\<close>

record pipeline =
  output_dir :: string
  preprocess_enabled :: bool
  save_processed :: bool

record 'px world =
  ocr_client :: vision_ocr
  files :: "string \<rightharpoonup> file_content"
  image_files :: "string \<rightharpoonup> 'px image"

definition notes_dir :: "pipeline \<Rightarrow> string" where
  "notes_dir self = path_join (output_dir self) ''notes''"

definition processed_images_dir :: "pipeline \<Rightarrow> string" where
  "processed_images_dir self = path_join (output_dir self) ''processed_images''"

definition write_text ::
  "services \<Rightarrow> 'px world \<Rightarrow> string \<Rightarrow> file_content \<Rightarrow> string option \<times> 'px world" where
  "write_text sv w path data =
     (case write_error sv path of
        None \<Rightarrow> (None, w\<lparr>files := (files w)(path \<mapsto> data)\<rparr>)
      | Some (RefusedAtOpen e) \<Rightarrow> (Some e, w)
      | Some (FailedAfterOpen e partial) \<Rightarrow>
          (Some e, w\<lparr>files := (files w)(path \<mapsto> Text partial)\<rparr>))"

definition save_processed_image ::
  "services \<Rightarrow> 'px world \<Rightarrow> 'px image \<Rightarrow> string \<Rightarrow> string + 'px world" where
  "save_processed_image sv w img output_path =
     (case save_error sv output_path of
        Some e \<Rightarrow> Inl e
      | None \<Rightarrow> Inr (w\<lparr>image_files := (image_files w)(output_path \<mapsto> img)\<rparr>))"

text \<open>
  Step 1 of \<open>process_single_image\<close>: the path handed to the client, or the exception,
  together with the result dict and the state as they are at that point.
\<close>

definition preprocess_step ::
  "'px cv2 \<Rightarrow> services \<Rightarrow> pipeline \<Rightarrow> 'px world \<Rightarrow> string \<Rightarrow> processing_result
     \<Rightarrow> (string + string) \<times> processing_result \<times> 'px world" where
  "preprocess_step cv sv self w image_path result =
     (if preprocess_enabled self then
        (case process_image cv image_path True True True of
           Inl e \<Rightarrow> (Inl e, result, w)
         | Inr (processed_image, preprocess_metadata) \<Rightarrow>
             (if save_processed self then
                (let processed_path =
                       path_join (processed_images_dir self)
                         (path_stem image_path @ ''_processed.jpg'')
                 in case save_processed_image sv w processed_image processed_path of
                      Inl e \<Rightarrow> (Inl e, result, w)
                    | Inr w1 \<Rightarrow>
                        (Inr processed_path,
                         result\<lparr>preprocessed_image := Some processed_path,
                                preprocessing := Some preprocess_metadata\<rparr>,
                         w1))
              else
                (let temp_path = mkstemp sv
                 in (Inr temp_path, result,
                     w\<lparr>image_files := (image_files w)(temp_path \<mapsto> processed_image)\<rparr>))))
      else (Inr image_path, result, w))"

text \<open>Steps 3 to 5: the two output files.\<close>

definition write_outputs ::
  "services \<Rightarrow> pipeline \<Rightarrow> 'px world \<Rightarrow> string \<Rightarrow> dict \<Rightarrow> processing_result
     \<Rightarrow> processing_result \<times> 'px world" where
  "write_outputs sv self w image_path ocr_result result =
     (let base_name = now_stamp sv @ ''_'' @ path_stem image_path;
          output_md = path_join (notes_dir self) (base_name @ ''.md'');
          output_json = path_join (notes_dir self) (base_name @ ''.json'')
      in case create_markdown sv ocr_result image_path of
           Inl e \<Rightarrow> (result\<lparr>error := Some e\<rparr>, w)
         | Inr markdown_content \<Rightarrow>
             (case write_text sv w output_md (Text markdown_content) of
                (Some e, w1) \<Rightarrow> (result\<lparr>error := Some e\<rparr>, w1)
              | (None, w1) \<Rightarrow>
                  (let result1 = result\<lparr>output_markdown := Some output_md\<rparr>
                   in case write_text sv w1 output_json (ResultJson result1) of
                        (Some e, w2) \<Rightarrow> (result1\<lparr>error := Some e\<rparr>, w2)
                      | (None, w2) \<Rightarrow> (result1\<lparr>output_json := Some output_json\<rparr>, w2))))"

definition process_single_image ::
  "'px cv2 \<Rightarrow> services \<Rightarrow> pipeline \<Rightarrow> 'px world \<Rightarrow> string \<Rightarrow> string option
     \<Rightarrow> processing_result \<times> 'px world" where
  "process_single_image cv sv self w image_path custom_prompt =
     (let result = \<lparr>source_image = image_path, timestamp = now_iso sv, success = False,
                     preprocessed_image = None, preprocessing = None, ocr = None,
                     output_markdown = None, output_json = None, error = None\<rparr>
      in case preprocess_step cv sv self w image_path result of
           (Inl e, result1, w1) \<Rightarrow> (result1\<lparr>error := Some e\<rparr>, w1)
         | (Inr ocr_input_path, result1, w1) \<Rightarrow>
             (case extract_text_and_analyze sv (ocr_client w1) ocr_input_path custom_prompt of
                (Inl e, client) \<Rightarrow>
                  (result1\<lparr>error := Some e\<rparr>, w1\<lparr>ocr_client := client\<rparr>)
              | (Inr ocr_result, client) \<Rightarrow>
                  write_outputs sv self (w1\<lparr>ocr_client := client\<rparr>) image_path ocr_result
                    (result1\<lparr>ocr := Some ocr_result, success := True\<rparr>)))"

text \<open>The loop of \<open>process_directory\<close> over the sorted paths.\<close>

fun process_each ::
  "'px cv2 \<Rightarrow> services \<Rightarrow> pipeline \<Rightarrow> 'px world \<Rightarrow> string list \<Rightarrow> string option
     \<Rightarrow> processing_result list \<times> 'px world" where
  "process_each cv sv self w [] custom_prompt = ([], w)"
| "process_each cv sv self w (image_path # image_paths) custom_prompt =
     (let (result, w1) = process_single_image cv sv self w image_path custom_prompt;
          (rs, w2) = process_each cv sv self w1 image_paths custom_prompt
      in (result # rs, w2))"

text \<open>
  \<open>process_directory\<close> returns the list of results, or raises when the summary cannot be
  written. Paths are sorted as strings.
\<close>

definition process_directory ::
  "'px cv2 \<Rightarrow> services \<Rightarrow> pipeline \<Rightarrow> 'px world \<Rightarrow> string \<Rightarrow> string \<Rightarrow> string option
     \<Rightarrow> (string + processing_result list) \<times> 'px world" where
  "process_directory cv sv self w directory pattern custom_prompt =
     (let image_paths = sort (glob sv directory pattern)
      in if image_paths = [] then (Inr [], w)
         else
           (let (rs, w1) = process_each cv sv self w image_paths custom_prompt;
                n_successful = length (filter success rs);
                summary_path =
                  path_join (output_dir self) (''batch_summary_'' @ now_stamp sv @ ''.json'');
                summary = \<lparr>batch_timestamp = now_iso sv, total_images = length rs,
                            successful = n_successful, failed = length rs - n_successful,
                            batch_total_cost = total_cost (ocr_client w1), results = rs\<rparr>
            in case write_text sv w1 summary_path (SummaryJson summary) of
                 (Some e, w2) \<Rightarrow> (Inl e, w2)
               | (None, w2) \<Rightarrow> (Inr rs, w2)))"

section \<open>Reference definitions and example collaborators\<close>

text \<open>
  The orientation rule as the specification words it: four buckets of 90 degrees with
  edges at 45, 135, 225 and 315, the one around 0 taking the angles from 315 to 360 as
  well; the first bucket with the most lines gives the angle.
\<close>

definition spec_buckets :: "real list \<Rightarrow> nat list" where
  "spec_buckets angles =
     [length (filter (\<lambda>a. (0 \<le> a \<and> a < 45) \<or> (315 \<le> a \<and> a \<le> 360)) angles),
      length (filter (\<lambda>a. 45 \<le> a \<and> a < 135) angles),
      length (filter (\<lambda>a. 135 \<le> a \<and> a < 225) angles),
      length (filter (\<lambda>a. 225 \<le> a \<and> a < 315) angles)]"

definition spec_detect_orientation :: "'px cv2 \<Rightarrow> 'px image \<Rightarrow> real" where
  "spec_detect_orientation cv img =
     (case hough_angles cv img of
        None \<Rightarrow> 0
      | Some angles \<Rightarrow> [0, 90, 180, 270] ! argmax (spec_buckets angles))"

text \<open>
  An image buffer as numpy holds it: every row has the width of the buffer, and no row is
  empty.
\<close>

definition rectangular :: "'px image \<Rightarrow> bool" where
  "rectangular img = list_all (\<lambda>r. r \<noteq> [] \<and> length r = snd (shape img)) img"

text \<open>
  Collaborators for the examples: one readable file \<open>page.jpg\<close> of two rows, a line
  detector with a fixed answer, and two visible filters.
\<close>

definition example_cv :: "real list option \<Rightarrow> nat cv2" where
  "example_cv angles =
     \<lparr>imread = (\<lambda>p. if p = ''page.jpg'' then Some [[10, 20, 30], [40, 50, 60]] else None),
      hough_angles = (\<lambda>img. angles),
      bilateralFilter = map (map Suc),
      clahe_lab = map (map (\<lambda>v. 2 * v)),
      warpAffine = (\<lambda>img angle. img)\<rparr>"

text \<open>
  A client, a pipeline and a state for the examples. The service answers every request
  but the one for \<open>missing.jpg\<close> with plain text and the token counts 28 and 1; its
  decoder knows the empty object only; every write succeeds; a tie is rounded up.
  \<open>full_disk_services\<close> is the same service on a file system that refuses to create any
  text file.
\<close>

definition example_services :: services where
  "example_services =
     \<lparr>vision_call = (\<lambda>m prompt path.
        if path = ''missing.jpg'' then Inl ''No such file or directory''
        else Inr \<lparr>content = ''my handwritten page'',
                  usage = \<lparr>prompt_tokens = 28, completion_tokens = 1, total_tokens = 29\<rparr>\<rparr>),
      json_loads = (\<lambda>s. if s = ''{}'' then Some (JObj []) else None),
      now_iso = ''2024-12-01T10:00:00'',
      now_stamp = ''20241201_100000'',
      create_markdown = (\<lambda>d p. Inr ''# Notes''),
      write_error = (\<lambda>p. None),
      save_error = (\<lambda>p. None),
      mkstemp = ''/tmp/tmp0001.jpg'',
      glob = (\<lambda>d pattern. if d = ''photos'' then [''photos/b.jpg'', ''photos/a.jpg''] else []),
      tie_up = (\<lambda>client u x. True)\<rparr>"

definition full_disk_services :: services where
  "full_disk_services =
     example_services\<lparr>write_error := (\<lambda>p. Some (RefusedAtOpen ''No space left on device''))\<rparr>"

definition example_client :: vision_ocr where
  "example_client = \<lparr>model = ''gpt-4o'', total_cost = 0\<rparr>"

definition example_world :: "nat world" where
  "example_world = \<lparr>ocr_client = example_client, files = Map.empty, image_files = Map.empty\<rparr>"

definition example_pipeline :: "bool \<Rightarrow> bool \<Rightarrow> pipeline" where
  "example_pipeline pre save =
     \<lparr>output_dir = ''data'', preprocess_enabled = pre, save_processed = save\<rparr>"

text \<open>
  Readers of a returned record: its metadata dict, the token counts reported there, and
  the two cost entries. \<open>returns_record\<close> says that a call on a client with the given
  model returns a record and does not raise.
\<close>

definition metadata_of :: "dict \<Rightarrow> dict" where
  "metadata_of d = (case map_of d ''metadata'' of Some (JObj m) \<Rightarrow> m | _ \<Rightarrow> [])"

definition json_int :: "json option \<Rightarrow> int" where
  "json_int v = (case v of Some (JInt n) \<Rightarrow> n | _ \<Rightarrow> 0)"

definition json_float :: "json option \<Rightarrow> real" where
  "json_float v = (case v of Some (JFloat x) \<Rightarrow> x | _ \<Rightarrow> 0)"

definition reported_usage :: "dict \<Rightarrow> token_usage" where
  "reported_usage d =
     (let t = (case map_of (metadata_of d) ''tokens_used'' of Some (JObj t) \<Rightarrow> t | _ \<Rightarrow> [])
      in \<lparr>prompt_tokens = json_int (map_of t ''prompt''),
          completion_tokens = json_int (map_of t ''completion''),
          total_tokens = json_int (map_of t ''total'')\<rparr>)"

definition estimated_cost :: "dict \<Rightarrow> real" where
  "estimated_cost d = json_float (map_of (metadata_of d) ''estimated_cost'')"

definition total_session_cost :: "dict \<Rightarrow> real" where
  "total_session_cost d = json_float (map_of (metadata_of d) ''total_session_cost'')"

definition returns_record :: "services \<Rightarrow> string \<Rightarrow> string option \<Rightarrow> string \<Rightarrow> bool" where
  "returns_record sv m analysis_prompt image_path =
     (case fst (extract_text_and_analyze sv \<lparr>model = m, total_cost = 0\<rparr> image_path analysis_prompt) of
        Inr d \<Rightarrow> True
      | Inl e \<Rightarrow> False)"

section \<open>Orientation detection\<close>

lemma histogram_bins:
  "histogram angles bins =
     [length (filter (\<lambda>a. 0 \<le> a \<and> a < 45) angles),
      length (filter (\<lambda>a. 45 \<le> a \<and> a < 135) angles),
      length (filter (\<lambda>a. 135 \<le> a \<and> a < 225) angles),
      length (filter (\<lambda>a. 225 \<le> a \<and> a < 315) angles),
      length (filter (\<lambda>a. 315 \<le> a \<and> a \<le> 360) angles)]"
  by (simp add: bins_def)

lemma argmax_less: "xs \<noteq> [] \<Longrightarrow> argmax xs < length xs"
  by (induction xs rule: argmax.induct) (auto simp: Let_def)

lemma argmax_greatest: "k < length xs \<Longrightarrow> xs ! k \<le> xs ! argmax xs"
proof (induction xs arbitrary: k rule: argmax.induct)
  case 1
  then show ?case by simp
next
  case (2 x)
  then show ?case by simp
next
  case (3 x y ys)
  show ?case
  proof (cases k)
    case 0
    then show ?thesis by (simp add: Let_def)
  next
    case (Suc m)
    with 3 have "(y # ys) ! m \<le> (y # ys) ! argmax (y # ys)" by simp
    with Suc show ?thesis by (auto simp: Let_def)
  qed
qed

lemma argmax_first: "k < argmax xs \<Longrightarrow> xs ! k < xs ! argmax xs"
proof (induction xs arbitrary: k rule: argmax.induct)
  case 1
  then show ?case by simp
next
  case (2 x)
  then show ?case by simp
next
  case (3 x y ys)
  show ?case
  proof (cases "x < (y # ys) ! argmax (y # ys)")
    case True
    then have a: "argmax (x # y # ys) = Suc (argmax (y # ys))" by (simp add: Let_def)
    show ?thesis
    proof (cases k)
      case 0
      with True a show ?thesis by simp
    next
      case (Suc m)
      with "3.prems" a have "m < argmax (y # ys)" by simp
      with 3 have "(y # ys) ! m < (y # ys) ! argmax (y # ys)" by simp
      with Suc a show ?thesis by simp
    qed
  next
    case False
    then have "argmax (x # y # ys) = 0" by (simp add: Let_def)
    with "3.prems" show ?thesis by simp
  qed
qed


text \<open>
  C5. When the line detector finds no line (HoughLines gives nothing, or an empty array),
  \<open>detect_orientation\<close> returns 0 degrees, and \<open>process_image\<close> on such an image applies
  no rotation for any setting of the flags: the image goes unrotated into the later stages,
  \<open>rotation_applied\<close> is 0 and no rotation step is recorded.
\<close>

theorem no_lines_no_rotation:
  assumes "hough_angles cv image0 = None \<or> hough_angles cv image0 = Some []"
    and "imread cv image_path = Some image0"
  shows "detect_orientation cv image0 = 0
    \<and> (\<exists>img md. process_image cv image_path auto_orient enhance denoise = Inr (img, md)
          \<and> rotation_applied md = 0
          \<and> (\<forall>a. Rotated a \<notin> set (steps md))
          \<and> img = (if enhance then enhance_contrast cv else id)
                      ((if denoise then remove_noise cv else id) image0))"
proof -
  have d: "detect_orientation cv image0 = 0"
    using assms(1) by (auto simp: detect_orientation_def bins_def)
  show ?thesis
    using d assms(2) by (simp add: process_image_def)
qed

theorem no_lines_no_rotation_witness:
  "detect_orientation (example_cv None) [[10, 20, 30], [40, 50, 60]] = 0
    \<and> (\<exists>img md. process_image (example_cv None) ''page.jpg'' True True True = Inr (img, md)
          \<and> rotation_applied md = 0
          \<and> (\<forall>a. Rotated a \<notin> set (steps md))
          \<and> img = [[22, 42, 62], [82, 102, 122]])"
proof -
  have a: "hough_angles (example_cv None) [[10, 20, 30], [40, 50, 60]] = None
      \<or> hough_angles (example_cv None) [[10, 20, 30], [40, 50, 60]] = Some []"
    by (simp add: example_cv_def)
  have b: "imread (example_cv None) ''page.jpg'' = Some [[10, 20, 30], [40, 50, 60]]"
    by (simp add: example_cv_def)
  have c: "enhance_contrast (example_cv None) (remove_noise (example_cv None) [[10, 20, 30], [40, 50, 60]])
      = [[22, 42, 62], [82, 102, 122]]"
    by (simp add: enhance_contrast_def remove_noise_def example_cv_def)
  show ?thesis
    using no_lines_no_rotation [OF a b, of True True True] c by simp
qed

text \<open>
  The five counts are compared as they are: \<open>detect_orientation\<close> takes the first of
  the five bins with the greatest count and maps the first and the last bin to 0.
\<close>

lemma five_bin_orientation:
  assumes "hough_angles cv img = Some angles"
  shows "(let hist = histogram angles bins; d = argmax hist
          in length hist = 5 \<and> d < 5
           \<and> (\<forall>k<5. hist ! k \<le> hist ! d) \<and> (\<forall>k<d. hist ! k < hist ! d)
           \<and> detect_orientation cv img =
               (if d = 0 \<or> d = 4 then 0 else if d = 1 then 90 else if d = 2 then 180 else 270))"
proof -
  let ?h = "histogram angles bins"
  let ?d = "argmax ?h"
  have len: "length ?h = 5" by (simp add: histogram_bins)
  then have ne: "?h \<noteq> []" by auto
  have lt: "?d < 5" using argmax_less [OF ne] len by simp
  have ge: "\<forall>k<5. ?h ! k \<le> ?h ! ?d" using argmax_greatest [of _ ?h] len by simp
  have first: "\<forall>k< ?d. ?h ! k < ?h ! ?d" using argmax_first by blast
  have val: "detect_orientation cv img =
      (if ?d = 0 \<or> ?d = 4 then 0 else if ?d = 1 then 90 else if ?d = 2 then 180 else 270)"
    using assms by (simp add: detect_orientation_def Let_def)
  show ?thesis
    unfolding Let_def using len lt ge first val by blast
qed





text \<open>
  An angle from 315 to 360 degrees is outside what the detector reports. For such angles
  the counts of the two bins around 0 and 360 degrees are compared apart: with two lines at
  10 degrees, two at 350 and three at 90 the code returns 90, and the merged bucket of 0
  degrees holds four lines.
\<close>

lemma bins_compared_apart_beyond_180:
  "detect_orientation (example_cv (Some [10, 10, 350, 350, 90, 90, 90])) [] = 90
    \<and> spec_detect_orientation (example_cv (Some [10, 10, 350, 350, 90, 90, 90])) [] = 0
    \<and> histogram [10, 10, 350, 350, 90, 90, 90] bins = [2, 3, 0, 0, 2]"
  by (simp add: detect_orientation_def spec_detect_orientation_def spec_buckets_def
        example_cv_def bins_def Let_def)

text \<open>
  C10. When every detected angle lies between 0 and 180 degrees, the bins [225, 315) and
  [315, 360] get no vote and \<open>detect_orientation\<close> returns 0, 90 or 180, never 270.
\<close>

theorem hough_range_never_270:
  assumes "hough_angles cv img = Some angles"
    and "\<forall>a \<in> set angles. 0 \<le> a \<and> a \<le> 180"
  shows "histogram angles bins ! 3 = 0 \<and> histogram angles bins ! 4 = 0
    \<and> detect_orientation cv img \<in> {0, 90, 180}
    \<and> detect_orientation cv img \<noteq> 270"
proof -
  let ?h = "histogram angles bins"
  have f3: "filter (\<lambda>a. 225 \<le> a \<and> a < 315) angles = []"
    using assms(2) by (auto simp: filter_empty_conv)
  have f4: "filter (\<lambda>a. 315 \<le> a \<and> a \<le> 360) angles = []"
    using assms(2) by (auto simp: filter_empty_conv)
  have h3: "?h ! 3 = 0" and h4: "?h ! 4 = 0"
    by (simp_all add: histogram_bins f3 f4)
  have len: "length ?h = 5" by (simp add: histogram_bins)
  then have ne: "?h \<noteq> []" by auto
  have lt: "argmax ?h < 5" using argmax_less [OF ne] len by simp
  have n3: "argmax ?h \<noteq> 3"
  proof
    assume e: "argmax ?h = 3"
    have "?h ! 0 < ?h ! argmax ?h" by (rule argmax_first) (simp add: e)
    with e h3 show False by simp
  qed
  have n4: "argmax ?h \<noteq> 4"
  proof
    assume e: "argmax ?h = 4"
    have "?h ! 0 < ?h ! argmax ?h" by (rule argmax_first) (simp add: e)
    with e h4 show False by simp
  qed
  from lt n3 n4 have "argmax ?h = 0 \<or> argmax ?h = 1 \<or> argmax ?h = 2" by arith
  then have "detect_orientation cv img \<in> {0, 90, 180}"
    using assms(1) by (auto simp: detect_orientation_def Let_def)
  with h3 h4 show ?thesis by auto
qed

theorem hough_range_never_270_witness:
  "histogram [10, 95, 100, 170] bins ! 3 = 0 \<and> histogram [10, 95, 100, 170] bins ! 4 = 0
    \<and> detect_orientation (example_cv (Some [10, 95, 100, 170])) [] \<in> {0, 90, 180}
    \<and> detect_orientation (example_cv (Some [10, 95, 100, 170])) [] \<noteq> 270"
proof -
  have a: "hough_angles (example_cv (Some [10, 95, 100, 170])) [] = Some [10, 95, 100, 170]"
    by (simp add: example_cv_def)
  have b: "\<forall>a \<in> set [10, 95, 100, 170 :: real]. 0 \<le> a \<and> a \<le> 180"
    by simp
  show ?thesis
    using hough_range_never_270 [OF a b] by simp
qed

section \<open>Rotation\<close>

lemma rectangular_rows:
  "rectangular img \<Longrightarrow> i < length img \<Longrightarrow> length (img ! i) = snd (shape img)"
  by (simp add: rectangular_def list_all_length)

lemma rectangular_width:
  "rectangular img \<Longrightarrow> img \<noteq> [] \<Longrightarrow> 0 < snd (shape img)"
  by (cases img) (auto simp: rectangular_def shape_def)

lemma length_rotate_90: "length (rotate_90_clockwise img) = snd (shape img)"
  by (simp add: rotate_90_clockwise_def split: prod.splits)

lemma row_rotate_90:
  "i < snd (shape img) \<Longrightarrow>
     rotate_90_clockwise img ! i =
       map (\<lambda>j. img ! (length img - 1 - j) ! i) [0..<length img]"
  by (simp add: rotate_90_clockwise_def shape_def)

lemma nth_rotate_90:
  "i < snd (shape img) \<Longrightarrow> j < length img \<Longrightarrow>
     rotate_90_clockwise img ! i ! j = img ! (length img - 1 - j) ! i"
  by (simp add: row_rotate_90)

lemma shape_rotate_90:
  "shape (rotate_90_clockwise img) =
     (snd (shape img), if snd (shape img) = 0 then 0 else fst (shape img))"
  by (auto simp: rotate_90_clockwise_def shape_def Let_def split: list.splits)

lemma shape_rotate_90_rect:
  assumes "rectangular img"
  shows "shape (rotate_90_clockwise img) = (snd (shape img), length img)"
proof (cases "img = []")
  case True
  then show ?thesis by (simp add: rotate_90_clockwise_def shape_def)
next
  case False
  with assms have w: "0 < snd (shape img)" by (rule rectangular_width)
  have "fst (shape img) = length img" by (simp add: shape_def)
  with w show ?thesis by (simp add: shape_rotate_90)
qed

lemma rectangular_rotate_90:
  assumes "rectangular img"
  shows "rectangular (rotate_90_clockwise img)"
proof -
  have s: "snd (shape (rotate_90_clockwise img)) = length img"
    using assms by (simp add: shape_rotate_90_rect)
  have "r \<noteq> [] \<and> length r = length img" if "r \<in> set (rotate_90_clockwise img)" for r
  proof -
    from that obtain i where i: "i < snd (shape img)" and r: "r = rotate_90_clockwise img ! i"
      by (metis in_set_conv_nth length_rotate_90)
    from i have ne: "img \<noteq> []" by (auto simp: shape_def)
    from r i have "length r = length img" by (simp add: row_rotate_90)
    with ne show ?thesis by auto
  qed
  then show ?thesis by (simp add: rectangular_def list_all_iff s)
qed

lemma rotate_90_twice_nth:
  assumes "rectangular img" and "i < length img" and "j < snd (shape img)"
  shows "rotate_90_clockwise (rotate_90_clockwise img) ! i ! j
           = img ! (length img - 1 - i) ! (snd (shape img) - 1 - j)"
proof -
  let ?r = "rotate_90_clockwise img"
  have sh: "shape ?r = (snd (shape img), length img)"
    using assms(1) by (rule shape_rotate_90_rect)
  have len: "length ?r = snd (shape img)" by (rule length_rotate_90)
  have "rotate_90_clockwise ?r ! i ! j = ?r ! (length ?r - 1 - j) ! i"
    using assms(2,3) sh len by (simp add: nth_rotate_90)
  also have "\<dots> = img ! (length img - 1 - i) ! (snd (shape img) - 1 - j)"
    using assms(2,3) len by (simp add: nth_rotate_90)
  finally show ?thesis .
qed

text \<open>
  C7. Four successive calls of \<open>rotate_image\<close> with angle 90 give back the image buffer,
  pixel for pixel and with its dimensions.
\<close>

theorem four_quarter_turns:
  assumes "rectangular img"
  shows "rotate_image cv (rotate_image cv (rotate_image cv (rotate_image cv img 90) 90) 90) 90 = img
    \<and> shape (rotate_image cv (rotate_image cv (rotate_image cv (rotate_image cv img 90) 90) 90) 90)
        = shape img"
proof -
  let ?r1 = "rotate_90_clockwise img"
  let ?r2 = "rotate_90_clockwise ?r1"
  let ?r3 = "rotate_90_clockwise ?r2"
  let ?r4 = "rotate_90_clockwise ?r3"
  let ?h = "length img" and ?w = "snd (shape img)"
  have rect1: "rectangular ?r1" using assms by (rule rectangular_rotate_90)
  have rect2: "rectangular ?r2" using rect1 by (rule rectangular_rotate_90)
  have sh1: "shape ?r1 = (?w, ?h)" using assms by (rule shape_rotate_90_rect)
  have len1: "length ?r1 = ?w" by (rule length_rotate_90)
  have sh2: "shape ?r2 = (?h, ?w)" using shape_rotate_90_rect [OF rect1] sh1 len1 by simp
  have len2: "length ?r2 = ?h" using length_rotate_90 [of ?r1] sh1 by simp
  have sh3: "shape ?r3 = (?w, ?h)" using shape_rotate_90_rect [OF rect2] sh2 len2 by simp
  have len3: "length ?r3 = ?w" using length_rotate_90 [of ?r2] sh2 by simp
  have len4: "length ?r4 = ?h" using length_rotate_90 [of ?r3] sh3 by simp
  have row: "?r4 ! i = img ! i" if i: "i < ?h" for i
  proof (rule nth_equalityI)
    show "length (?r4 ! i) = length (img ! i)"
      using i assms by (simp add: rectangular_rows row_rotate_90 [of i ?r3] sh3 len3)
  next
    fix j assume "j < length (?r4 ! i)"
    then have j: "j < ?w" using i by (simp add: row_rotate_90 [of i ?r3] sh3 len3)
    have "?r4 ! i ! j = ?r2 ! (length ?r2 - 1 - i) ! (snd (shape ?r2) - 1 - j)"
      using rotate_90_twice_nth [OF rect2, of i j] i j len2 sh2 by simp
    also have "\<dots> = ?r2 ! (?h - 1 - i) ! (?w - 1 - j)" by (simp add: len2 sh2)
    also have "\<dots> = img ! (?h - 1 - (?h - 1 - i)) ! (?w - 1 - (?w - 1 - j))"
      using rotate_90_twice_nth [OF assms, of "?h - 1 - i" "?w - 1 - j"] i j by simp
    also have "\<dots> = img ! i ! j" using i j by simp
    finally show "?r4 ! i ! j = img ! i ! j" .
  qed
  have "?r4 = img" by (rule nth_equalityI) (simp_all add: len4 row)
  then show ?thesis by (simp add: rotate_image_def)
qed

theorem four_quarter_turns_witness:
  "rotate_image (example_cv None) [[10, 20, 30], [40, 50, 60]] 90 = [[40, 10], [50, 20], [60, 30]]
    \<and> rotate_image (example_cv None) (rotate_image (example_cv None)
        (rotate_image (example_cv None)
          (rotate_image (example_cv None) [[10, 20, 30], [40, 50, 60]] 90) 90) 90) 90
       = [[10, 20, 30], [40, 50, 60]]"
proof -
  have r: "rectangular [[10, 20, 30], [40, 50, 60 :: nat]]"
    by (simp add: rectangular_def shape_def)
  have q: "rotate_image (example_cv None) [[10, 20, 30], [40, 50, 60]] 90 = [[40, 10], [50, 20], [60, 30]]"
    by (simp add: rotate_image_def rotate_90_clockwise_def shape_def upt_rec)
  show ?thesis
    using four_quarter_turns [OF r, of "example_cv None"] q by simp
qed

section \<open>The normalization trace\<close>

text \<open>
  C8. For every setting of the three flags, \<open>process_image\<close> on a file that loads
  records the steps in the fixed order: the rotation by the detected angle when
  orientation is on and that angle is not 0, then the denoising when its flag is on, then
  the contrast enhancement when its flag is on. The list is a subsequence of rotation,
  denoising, enhancement; \<open>rotation_applied\<close> is the detected angle, or 0 with orientation
  off; and the returned image went through the same stages in the same order.
\<close>

theorem steps_fixed_order:
  assumes "imread cv image_path = Some image0"
  shows "\<exists>img md. process_image cv image_path auto_orient enhance denoise = Inr (img, md)
    \<and> rotation_applied md = (if auto_orient then detect_orientation cv image0 else 0)
    \<and> steps md =
        (if auto_orient \<and> detect_orientation cv image0 \<noteq> 0
         then [Rotated (detect_orientation cv image0)] else [])
        @ (if denoise then [Denoised] else []) @ (if enhance then [ContrastEnhanced] else [])
    \<and> subseq (steps md) [Rotated (detect_orientation cv image0), Denoised, ContrastEnhanced]
    \<and> img = (if enhance then enhance_contrast cv else id)
              ((if denoise then remove_noise cv else id)
                (if auto_orient \<and> detect_orientation cv image0 \<noteq> 0
                 then rotate_image cv image0 (detect_orientation cv image0) else image0))"
  using assms
  by (auto simp: process_image_def Let_def)

theorem steps_fixed_order_witness:
  "\<exists>img md. process_image (example_cv (Some [95, 100])) ''page.jpg'' True False True = Inr (img, md)
     \<and> rotation_applied md = 90
     \<and> steps md = [Rotated 90, Denoised]
     \<and> subseq (steps md) [Rotated 90, Denoised, ContrastEnhanced]
     \<and> img = [[41, 11], [51, 21], [61, 31]]"
proof -
  let ?cv = "example_cv (Some [95, 100])"
  have i: "imread ?cv ''page.jpg'' = Some [[10, 20, 30], [40, 50, 60]]"
    by (simp add: example_cv_def)
  have d: "detect_orientation ?cv [[10, 20, 30], [40, 50, 60]] = 90"
    by (simp add: detect_orientation_def example_cv_def bins_def Let_def)
  have r: "rotate_image ?cv [[10, 20, 30], [40, 50, 60]] 90 = [[40, 10], [50, 20], [60, 30]]"
    by (simp add: rotate_image_def rotate_90_clockwise_def shape_def upt_rec)
  have n: "remove_noise ?cv [[40, 10], [50, 20], [60, 30]] = [[41, 11], [51, 21], [61, 31]]"
    by (simp add: remove_noise_def example_cv_def)
  show ?thesis
    using steps_fixed_order [OF i, of True False True] by (simp add: d r n)
qed

text \<open>A file that cannot be decoded gives the ValueError and no trace.\<close>

lemma process_image_unreadable:
  "imread cv image_path = None \<Longrightarrow>
     process_image cv image_path auto_orient enhance denoise
       = Inl (''Could not load image: '' @ image_path)"
  by (simp add: process_image_def)

section \<open>Response parsing\<close>

lemma py_split_nonempty: "py_split sep s \<noteq> []"
  by (induction sep s rule: py_split.induct) (auto split: list.splits)

lemma py_split_second: "sep \<noteq> [] \<Longrightarrow> py_in sep s \<Longrightarrow> 1 < length (py_split sep s)"
proof (induction sep s rule: py_split.induct)
  case (1 sep)
  then show ?case by simp
next
  case (2 sep c cs)
  show ?case
  proof (cases "prefix sep (c # cs)")
    case True
    have "py_split sep (drop (length sep - 1) cs) \<noteq> []" by (rule py_split_nonempty)
    with True show ?thesis by (cases "py_split sep (drop (length sep - 1) cs)") auto
  next
    case False
    with 2 have "1 < length (py_split sep cs)" by simp
    with False show ?thesis by (auto split: list.splits)
  qed
qed

lemma map_of_dict_set: "map_of (dict_set d k v) k' = (if k' = k then Some v else map_of d k')"
  by (induction d k v rule: dict_set.induct) auto

lemma select_plain_text: "select_json_str ''my handwritten page'' = ''my handwritten page''"
  by (simp add: select_json_str_def)

lemma select_json_fence: "select_json_str ''Here: ```json\<newline>{}\<newline>``` done'' = ''{}''"
  by (simp add: select_json_str_def py_strip_def isspace_def)

lemma select_bare_fence: "select_json_str ''Here: ```\<newline>{}\<newline>``` done'' = ''{}''"
  by (simp add: select_json_str_def py_strip_def isspace_def)

text \<open>
  C3. When the service answers and the text selected from the body does not decode (for a
  body without a fence that text is the body itself), \<open>extract_text_and_analyze\<close> does not
  raise: it returns a record whose transcription is the raw body, whose four list fields
  are empty, whose quality rating is 3 and whose notes say that the response was not in
  the expected JSON format.
\<close>

theorem fallback_on_unparsable:
  assumes "vision_call sv (model self)
             (case analysis_prompt of None \<Rightarrow> default_prompt | Some p \<Rightarrow> p) image_path = Inr resp"
    and "json_loads sv (select_json_str (content resp)) = None"
  shows "\<exists>d self'. extract_text_and_analyze sv self image_path analysis_prompt = (Inr d, self')
      \<and> map_of d ''transcription'' = Some (JStr (content resp))
      \<and> map_of d ''key_concepts'' = Some (JArr [])
      \<and> map_of d ''themes'' = Some (JArr [])
      \<and> map_of d ''questions_or_insights'' = Some (JArr [])
      \<and> map_of d ''suggested_tags'' = Some (JArr [])
      \<and> map_of d ''quality_rating'' = Some (JInt 3)
      \<and> map_of d ''notes'' = Some (JStr ''Response was not in expected JSON format'')"
  using assms
  by (simp add: extract_text_and_analyze_def fallback_record_def Let_def map_of_dict_set)

theorem fallback_on_unparsable_witness:
  "\<exists>d self'. extract_text_and_analyze example_services example_client ''page.jpg'' None = (Inr d, self')
      \<and> map_of d ''transcription'' = Some (JStr ''my handwritten page'')
      \<and> map_of d ''key_concepts'' = Some (JArr [])
      \<and> map_of d ''themes'' = Some (JArr [])
      \<and> map_of d ''questions_or_insights'' = Some (JArr [])
      \<and> map_of d ''suggested_tags'' = Some (JArr [])
      \<and> map_of d ''quality_rating'' = Some (JInt 3)
      \<and> map_of d ''notes'' = Some (JStr ''Response was not in expected JSON format'')"
proof -
  let ?resp = "\<lparr>content = ''my handwritten page'',
                  usage = \<lparr>prompt_tokens = 28, completion_tokens = 1, total_tokens = 29\<rparr>\<rparr>"
  have a: "vision_call example_services (model example_client)
             (case None of None \<Rightarrow> default_prompt | Some p \<Rightarrow> p) ''page.jpg'' = Inr ?resp"
    by (simp add: example_services_def)
  have b: "json_loads example_services (select_json_str (content ?resp)) = None"
    by (simp add: example_services_def select_plain_text)
  show ?thesis
    using fallback_on_unparsable [OF a b] by simp
qed

text \<open>
  A body that decodes to a JSON value that is no object (a number, a string, a list) is
  outside C3: the assignment of the metadata raises, and the running cost stays as it was.
\<close>

lemma non_dict_response_raises:
  assumes "vision_call sv (model self)
             (case analysis_prompt of None \<Rightarrow> default_prompt | Some p \<Rightarrow> p) image_path = Inr resp"
    and "json_loads sv (select_json_str (content resp)) = Some v"
    and "\<forall>d. v \<noteq> JObj d"
  shows "extract_text_and_analyze sv self image_path analysis_prompt
           = (Inl ''object does not support item assignment'', self)"
  using assms by (cases v) (simp_all add: extract_text_and_analyze_def)

section \<open>Running cost\<close>

lemma call_cost_formula:
  "call_cost u =
     (of_int (prompt_tokens u) / 1000000) * 2.50 + (of_int (completion_tokens u) / 1000000) * 10.00"
  by (simp add: call_cost_def)

lemma call_cost_nonneg:
  "0 \<le> prompt_tokens u \<Longrightarrow> 0 \<le> completion_tokens u \<Longrightarrow> 0 \<le> call_cost u"
  by (simp add: call_cost_def Let_def)

text \<open>
  Off a tie the rounding does not depend on the side chosen: a cost of 0.00008 is recorded
  as 0.0001, a cost of 0.00125 as 0.0012 or as 0.0013.
\<close>

lemma py_round_off_tie: "py_round up (8 / 100000) 4 = 1 / 10000"
  by (simp add: py_round_def Let_def)

lemma py_round_on_tie:
  "py_round True (125 / 100000) 4 = 13 / 10000 \<and> py_round False (125 / 100000) 4 = 12 / 10000"
  by (simp add: py_round_def Let_def)

text \<open>What a call that returns a record has done.\<close>

lemma extract_Inr:
  assumes "extract_text_and_analyze sv self p pr = (Inr d, self')"
  shows "\<exists>(resp :: response) d0.
      vision_call sv (model self) (case pr of None \<Rightarrow> default_prompt | Some q \<Rightarrow> q) p = Inr resp
    \<and> self' = self\<lparr>total_cost := total_cost self + call_cost (usage resp)\<rparr>
    \<and> d = dict_set d0 ''metadata''
          (JObj [(''model'', JStr (model self)),
                 (''timestamp'', JStr (now_iso sv)),
                 (''image_path'', JStr p),
                 (''tokens_used'',
                    JObj [(''prompt'', JInt (prompt_tokens (usage resp))),
                          (''completion'', JInt (completion_tokens (usage resp))),
                          (''total'', JInt (total_tokens (usage resp)))]),
                 (''estimated_cost'',
                    JFloat (py_round (tie_up sv self (usage resp) (call_cost (usage resp)))
                              (call_cost (usage resp)) 4)),
                 (''total_session_cost'',
                    JFloat (py_round
                              (tie_up sv self (usage resp)
                                 (total_cost self + call_cost (usage resp)))
                              (total_cost self + call_cost (usage resp)) 4))])"
proof -
  let ?call = "vision_call sv (model self)
                 (case pr of None \<Rightarrow> default_prompt | Some q \<Rightarrow> q) p"
  obtain resp where v: "?call = Inr resp"
    using assms by (cases ?call) (auto simp: extract_text_and_analyze_def Let_def)
  let ?res = "case json_loads sv (select_json_str (content resp)) of
                Some v \<Rightarrow> v | None \<Rightarrow> fallback_record (content resp)"
  obtain d0 where r: "?res = JObj d0"
    using assms v by (cases ?res) (auto simp: extract_text_and_analyze_def Let_def)
  have main: "?call = Inr resp
    \<and> self' = self\<lparr>total_cost := total_cost self + call_cost (usage resp)\<rparr>
    \<and> d = dict_set d0 ''metadata''
          (JObj [(''model'', JStr (model self)),
                 (''timestamp'', JStr (now_iso sv)),
                 (''image_path'', JStr p),
                 (''tokens_used'',
                    JObj [(''prompt'', JInt (prompt_tokens (usage resp))),
                          (''completion'', JInt (completion_tokens (usage resp))),
                          (''total'', JInt (total_tokens (usage resp)))]),
                 (''estimated_cost'',
                    JFloat (py_round (tie_up sv self (usage resp) (call_cost (usage resp)))
                              (call_cost (usage resp)) 4)),
                 (''total_session_cost'',
                    JFloat (py_round
                              (tie_up sv self (usage resp)
                                 (total_cost self + call_cost (usage resp)))
                              (total_cost self + call_cost (usage resp)) 4))])"
    using assms v r
    by (auto simp: extract_text_and_analyze_def Let_def split: if_splits)
  from main show ?thesis by blast
qed

lemma extract_record:
  assumes "extract_text_and_analyze sv self p pr = (Inr d, self')"
  shows "\<exists>resp. vision_call sv (model self)
                  (case pr of None \<Rightarrow> default_prompt | Some q \<Rightarrow> q) p = Inr resp
    \<and> prompt_tokens (reported_usage d) = prompt_tokens (usage resp)
    \<and> completion_tokens (reported_usage d) = completion_tokens (usage resp)
    \<and> total_cost self' = total_cost self + call_cost (usage resp)
    \<and> model self' = model self
    \<and> (\<exists>up. estimated_cost d = py_round up (call_cost (usage resp)) 4)
    \<and> (\<exists>up. total_session_cost d = py_round up (total_cost self') 4)"
proof -
  from extract_Inr [OF assms] obtain resp :: response and d0 where
    v: "vision_call sv (model self) (case pr of None \<Rightarrow> default_prompt | Some q \<Rightarrow> q) p = Inr resp" and
    s: "self' = self\<lparr>total_cost := total_cost self + call_cost (usage resp)\<rparr>" and
    d: "d = dict_set d0 ''metadata''
          (JObj [(''model'', JStr (model self)),
                 (''timestamp'', JStr (now_iso sv)),
                 (''image_path'', JStr p),
                 (''tokens_used'',
                    JObj [(''prompt'', JInt (prompt_tokens (usage resp))),
                          (''completion'', JInt (completion_tokens (usage resp))),
                          (''total'', JInt (total_tokens (usage resp)))]),
                 (''estimated_cost'',
                    JFloat (py_round (tie_up sv self (usage resp) (call_cost (usage resp)))
                              (call_cost (usage resp)) 4)),
                 (''total_session_cost'',
                    JFloat (py_round
                              (tie_up sv self (usage resp)
                                 (total_cost self + call_cost (usage resp)))
                              (total_cost self + call_cost (usage resp)) 4))])"
    by blast
  have u: "prompt_tokens (reported_usage d) = prompt_tokens (usage resp)"
      "completion_tokens (reported_usage d) = completion_tokens (usage resp)"
    by (simp_all add: d reported_usage_def metadata_of_def map_of_dict_set json_int_def)
  have e: "estimated_cost d
      = py_round (tie_up sv self (usage resp) (call_cost (usage resp))) (call_cost (usage resp)) 4"
    by (simp add: d estimated_cost_def metadata_of_def map_of_dict_set json_float_def)
  have t: "total_session_cost d
      = py_round (tie_up sv self (usage resp) (total_cost self + call_cost (usage resp)))
          (total_cost self + call_cost (usage resp)) 4"
    by (simp add: d total_session_cost_def metadata_of_def map_of_dict_set json_float_def)
  have e': "\<exists>up. estimated_cost d = py_round up (call_cost (usage resp)) 4"
    using e by blast
  have t': "\<exists>up. total_session_cost d = py_round up (total_cost self') 4"
    using t s by auto
  show ?thesis using v s u e' t' by auto
qed

lemma extract_model: "model (snd (extract_text_and_analyze sv self p pr)) = model self"
  by (simp add: extract_text_and_analyze_def Let_def split: sum.splits json.splits)

lemma returns_record_iff:
  "returns_record sv (model self) pr p
     \<longleftrightarrow> (\<exists>d. fst (extract_text_and_analyze sv self p pr) = Inr d)"
  by (auto simp: returns_record_def extract_text_and_analyze_def Let_def map_of_dict_set
      split: sum.splits json.splits)

text \<open>
  No call lowers the running total, whether it returns or raises, as long as the service
  reports token counts that are not negative.
\<close>

lemma extract_total_mono:
  assumes "\<forall>m q p resp. vision_call sv m q p = Inr resp
             \<longrightarrow> 0 \<le> prompt_tokens (usage resp) \<and> 0 \<le> completion_tokens (usage resp)"
  shows "total_cost self \<le> total_cost (snd (extract_text_and_analyze sv self p pr))"
proof -
  let ?call = "vision_call sv (model self)
                 (case pr of None \<Rightarrow> default_prompt | Some q \<Rightarrow> q) p"
  show ?thesis
  proof (cases ?call)
    case (Inl e)
    then show ?thesis by (simp add: extract_text_and_analyze_def)
  next
    case (Inr resp)
    with assms have "0 \<le> call_cost (usage resp)"
      by (intro call_cost_nonneg) blast+
    with Inr show ?thesis
      by (simp add: extract_text_and_analyze_def Let_def split: json.splits)
  qed
qed

lemma batch_total_mono:
  assumes "\<forall>m q p resp. vision_call sv m q p = Inr resp
             \<longrightarrow> 0 \<le> prompt_tokens (usage resp) \<and> 0 \<le> completion_tokens (usage resp)"
  shows "total_cost self \<le> total_cost (snd (batch_process sv self paths pr))"
proof (induction paths arbitrary: self)
  case Nil
  show ?case by simp
next
  case (Cons p paths)
  let ?s1 = "snd (extract_text_and_analyze sv self p pr)"
  have "total_cost self \<le> total_cost ?s1"
    using assms by (rule extract_total_mono)
  also have "\<dots> \<le> total_cost (snd (batch_process sv ?s1 paths pr))"
    by (rule Cons.IH)
  finally show ?case
    by (simp add: split_beta Let_def)
qed

lemma batch_costs:
  assumes "batch_process sv self paths pr = (rs, self')"
    and "\<forall>p \<in> set paths. returns_record sv (model self) pr p"
  shows "total_cost self' = total_cost self + sum_list (map (\<lambda>d. call_cost (reported_usage d)) rs)
    \<and> list_all2 (\<lambda>p d. \<exists>resp.
          vision_call sv (model self) (case pr of None \<Rightarrow> default_prompt | Some q \<Rightarrow> q) p
            = Inr resp
        \<and> prompt_tokens (reported_usage d) = prompt_tokens (usage resp)
        \<and> completion_tokens (reported_usage d) = completion_tokens (usage resp)) paths rs
    \<and> (\<forall>d \<in> set rs. \<exists>up. estimated_cost d = py_round up (call_cost (reported_usage d)) 4)"
  using assms
proof (induction paths arbitrary: self rs self')
  case Nil
  then show ?case by simp
next
  case (Cons p paths)
  let ?P = "\<lambda>m p d. \<exists>resp.
          vision_call sv m (case pr of None \<Rightarrow> default_prompt | Some q \<Rightarrow> q) p = Inr resp
        \<and> prompt_tokens (reported_usage d) = prompt_tokens (usage resp)
        \<and> completion_tokens (reported_usage d) = completion_tokens (usage resp)"
  obtain r self1 where e: "extract_text_and_analyze sv self p pr = (r, self1)"
    by (cases "extract_text_and_analyze sv self p pr")
  from Cons.prems(2) have "returns_record sv (model self) pr p" by simp
  with e obtain d where r: "r = Inr d" by (auto simp: returns_record_iff)
  obtain rs1 self2 where b: "batch_process sv self1 paths pr = (rs1, self2)"
    by (cases "batch_process sv self1 paths pr")
  from e r b Cons.prems(1) have rs: "rs = d # rs1" and s2: "self' = self2" by auto
  have m: "model self1 = model self" using extract_model [of sv self p pr] e by simp
  have ih: "total_cost self2 = total_cost self1 + sum_list (map (\<lambda>d. call_cost (reported_usage d)) rs1)
      \<and> list_all2 (?P (model self)) paths rs1
      \<and> (\<forall>d \<in> set rs1. \<exists>up. estimated_cost d = py_round up (call_cost (reported_usage d)) 4)"
    using Cons.IH [OF b] Cons.prems(2) m by simp
  from extract_record [of sv self p pr d self1] e r obtain resp where
    v: "vision_call sv (model self) (case pr of None \<Rightarrow> default_prompt | Some q \<Rightarrow> q) p = Inr resp" and
    pt: "prompt_tokens (reported_usage d) = prompt_tokens (usage resp)" and
    ct: "completion_tokens (reported_usage d) = completion_tokens (usage resp)" and
    tc: "total_cost self1 = total_cost self + call_cost (usage resp)" and
    ec: "\<exists>up. estimated_cost d = py_round up (call_cost (usage resp)) 4"
    by auto
  have cc: "call_cost (reported_usage d) = call_cost (usage resp)"
    by (simp add: call_cost_def pt ct)
  have one: "?P (model self) p d" using v pt ct by blast
  show ?case using ih one rs s2 tc ec cc by simp
qed

text \<open>
  C4, as the code has it. The running total of a client never decreases over a sequence
  of calls when the reported token counts are not negative. Over a sequence of calls that
  all return a record, the token counts in each record are the reported ones, the
  \<open>estimated_cost\<close> of each record is the cost
  \<open>(prompt_tokens / 1e6) * 2.50 + (completion_tokens / 1e6) * 10.00\<close> of its call rounded
  to four decimals, and the running total grows by the sum of these costs before
  rounding. The arithmetic is exact here, and the side taken on a decimal tie is left open.
\<close>

theorem running_cost:
  assumes "batch_process sv self paths pr = (rs, self')"
  shows "((\<forall>m q p resp. vision_call sv m q p = Inr resp
             \<longrightarrow> 0 \<le> prompt_tokens (usage resp) \<and> 0 \<le> completion_tokens (usage resp))
          \<longrightarrow> total_cost self \<le> total_cost self')
    \<and> ((\<forall>p \<in> set paths. returns_record sv (model self) pr p)
          \<longrightarrow> list_all2 (\<lambda>p d. \<exists>resp.
                  vision_call sv (model self)
                    (case pr of None \<Rightarrow> default_prompt | Some q \<Rightarrow> q) p = Inr resp
                \<and> prompt_tokens (reported_usage d) = prompt_tokens (usage resp)
                \<and> completion_tokens (reported_usage d) = completion_tokens (usage resp))
                paths rs
            \<and> (\<forall>d \<in> set rs. \<exists>up. estimated_cost d =
                  py_round up
                    ((of_int (prompt_tokens (reported_usage d)) / 1000000) * 2.50
                      + (of_int (completion_tokens (reported_usage d)) / 1000000) * 10.00) 4)
            \<and> total_cost self' = total_cost self
                + sum_list (map (\<lambda>d.
                    (of_int (prompt_tokens (reported_usage d)) / 1000000) * 2.50
                      + (of_int (completion_tokens (reported_usage d)) / 1000000) * 10.00) rs))"
proof (intro conjI impI)
  assume "\<forall>m q p resp. vision_call sv m q p = Inr resp
             \<longrightarrow> 0 \<le> prompt_tokens (usage resp) \<and> 0 \<le> completion_tokens (usage resp)"
  then have "total_cost self \<le> total_cost (snd (batch_process sv self paths pr))"
    by (rule batch_total_mono)
  with assms show "total_cost self \<le> total_cost self'" by simp
next
  assume r: "\<forall>p \<in> set paths. returns_record sv (model self) pr p"
  note c = batch_costs [OF assms r]
  from c show "list_all2 (\<lambda>p d. \<exists>resp.
                  vision_call sv (model self)
                    (case pr of None \<Rightarrow> default_prompt | Some q \<Rightarrow> q) p = Inr resp
                \<and> prompt_tokens (reported_usage d) = prompt_tokens (usage resp)
                \<and> completion_tokens (reported_usage d) = completion_tokens (usage resp))
                paths rs"
    by blast
  from c show "\<forall>d \<in> set rs. \<exists>up. estimated_cost d =
                  py_round up
                    ((of_int (prompt_tokens (reported_usage d)) / 1000000) * 2.50
                      + (of_int (completion_tokens (reported_usage d)) / 1000000) * 10.00) 4"
    by (simp add: call_cost_formula)
  from c show "total_cost self' = total_cost self
                + sum_list (map (\<lambda>d.
                    (of_int (prompt_tokens (reported_usage d)) / 1000000) * 2.50
                      + (of_int (completion_tokens (reported_usage d)) / 1000000) * 10.00) rs)"
    by (simp add: call_cost_formula)
qed

lemma example_call:
  "extract_text_and_analyze example_services \<lparr>model = ''gpt-4o'', total_cost = c\<rparr> p None =
     (if p = ''missing.jpg'' then (Inl ''No such file or directory'', \<lparr>model = ''gpt-4o'', total_cost = c\<rparr>)
      else (Inr [(''transcription'', JStr ''my handwritten page''),
           (''key_concepts'', JArr []),
           (''themes'', JArr []),
           (''questions_or_insights'', JArr []),
           (''suggested_tags'', JArr []),
           (''quality_rating'', JInt 3),
           (''notes'', JStr ''Response was not in expected JSON format''),
           (''metadata'', JObj [(''model'', JStr ''gpt-4o''),
                (''timestamp'', JStr ''2024-12-01T10:00:00''),
                (''image_path'', JStr p),
                (''tokens_used'',
                   JObj [(''prompt'', JInt 28), (''completion'', JInt 1), (''total'', JInt 29)]),
                (''estimated_cost'', JFloat (1 / 10000)),
                (''total_session_cost'', JFloat (py_round True (c + 8 / 100000) 4))])],
      \<lparr>model = ''gpt-4o'', total_cost = c + 8 / 100000\<rparr>))"
  by (simp add: extract_text_and_analyze_def example_services_def select_plain_text
        fallback_record_def Let_def call_cost_def py_round_def)

lemma example_batch:
  "batch_process example_services example_client [''a.jpg'', ''b.jpg''] None =
     ([[(''transcription'', JStr ''my handwritten page''),
           (''key_concepts'', JArr []),
           (''themes'', JArr []),
           (''questions_or_insights'', JArr []),
           (''suggested_tags'', JArr []),
           (''quality_rating'', JInt 3),
           (''notes'', JStr ''Response was not in expected JSON format''),
           (''metadata'', JObj [(''model'', JStr ''gpt-4o''),
                (''timestamp'', JStr ''2024-12-01T10:00:00''),
                (''image_path'', JStr ''a.jpg''),
                (''tokens_used'',
                   JObj [(''prompt'', JInt 28), (''completion'', JInt 1), (''total'', JInt 29)]),
                (''estimated_cost'', JFloat (1 / 10000)),
                (''total_session_cost'', JFloat (1 / 10000))])],
       [(''transcription'', JStr ''my handwritten page''),
           (''key_concepts'', JArr []),
           (''themes'', JArr []),
           (''questions_or_insights'', JArr []),
           (''suggested_tags'', JArr []),
           (''quality_rating'', JInt 3),
           (''notes'', JStr ''Response was not in expected JSON format''),
           (''metadata'', JObj [(''model'', JStr ''gpt-4o''),
                (''timestamp'', JStr ''2024-12-01T10:00:00''),
                (''image_path'', JStr ''b.jpg''),
                (''tokens_used'',
                   JObj [(''prompt'', JInt 28), (''completion'', JInt 1), (''total'', JInt 29)]),
                (''estimated_cost'', JFloat (1 / 10000)),
                (''total_session_cost'', JFloat (2 / 10000))])]],
      \<lparr>model = ''gpt-4o'', total_cost = 16 / 100000\<rparr>)"
  by (simp add: example_client_def example_call py_round_def Let_def)

theorem running_cost_witness:
  "total_cost example_client
      \<le> total_cost (snd (batch_process example_services example_client [''a.jpg'', ''b.jpg''] None))
    \<and> length (fst (batch_process example_services example_client [''a.jpg'', ''b.jpg''] None)) = 2
    \<and> total_cost (snd (batch_process example_services example_client [''a.jpg'', ''b.jpg''] None))
        = total_cost example_client
          + (((28 / 1000000) * 2.50 + (1 / 1000000) * 10.00)
            + ((28 / 1000000) * 2.50 + (1 / 1000000) * 10.00))"
proof -
  let ?b = "batch_process example_services example_client [''a.jpg'', ''b.jpg''] None"
  have a: "?b = (fst ?b, snd ?b)" by simp
  have n: "\<forall>m q p resp. vision_call example_services m q p = Inr resp
             \<longrightarrow> 0 \<le> prompt_tokens (usage resp) \<and> 0 \<le> completion_tokens (usage resp)"
    by (auto simp: example_services_def split: if_splits)
  have r: "\<forall>p \<in> set [''a.jpg'', ''b.jpg'']. returns_record example_services (model example_client) None p"
    by (simp add: returns_record_def example_client_def example_call)
  have s: "sum_list (map (\<lambda>d.
              (of_int (prompt_tokens (reported_usage d)) / 1000000) * 2.50
                + (of_int (completion_tokens (reported_usage d)) / 1000000) * 10.00) (fst ?b))
      = ((28 / 1000000) * 2.50 + (1 / 1000000) * 10.00 :: real)
        + ((28 / 1000000) * 2.50 + (1 / 1000000) * 10.00)"
    unfolding example_batch
    by (simp add: reported_usage_def metadata_of_def json_int_def)
  have l: "length (fst ?b) = 2"
    unfolding example_batch by simp
  from running_cost [OF a] n r
  have "total_cost example_client \<le> total_cost (snd ?b)
    \<and> total_cost (snd ?b) = total_cost example_client
        + sum_list (map (\<lambda>d.
              (of_int (prompt_tokens (reported_usage d)) / 1000000) * 2.50
                + (of_int (completion_tokens (reported_usage d)) / 1000000) * 10.00) (fst ?b))"
    by blast
  with s l show ?thesis by (simp del: batch_process.simps)
qed

text \<open>
  The claim C4 as worded fails on the rounding: two calls with 28 prompt tokens and 1
  completion token cost 0.00008 each and 0.00016 together, while each record carries the
  estimated cost 0.0001, and those add up to 0.0002. The cost 0.00008 is no tie.
\<close>

theorem rounded_cost_counterexample:
  "map estimated_cost (fst (batch_process example_services example_client [''a.jpg'', ''b.jpg''] None))
      = [1 / 10000, 1 / 10000]
    \<and> call_cost \<lparr>prompt_tokens = 28, completion_tokens = 1, total_tokens = 29\<rparr> = 8 / 100000
    \<and> total_cost (snd (batch_process example_services example_client [''a.jpg'', ''b.jpg''] None))
      = 16 / 100000
    \<and> total_cost (snd (batch_process example_services example_client [''a.jpg'', ''b.jpg''] None))
      \<noteq> sum_list (map estimated_cost
            (fst (batch_process example_services example_client [''a.jpg'', ''b.jpg''] None)))"
  unfolding example_batch
  by (simp add: estimated_cost_def metadata_of_def json_float_def call_cost_def)

section \<open>The ingestion pipeline\<close>

lemma write_outputs_keeps:
  "success (fst (write_outputs sv self w p d r)) = success r
   \<and> ocr (fst (write_outputs sv self w p d r)) = ocr r
   \<and> preprocessing (fst (write_outputs sv self w p d r)) = preprocessing r"
  by (simp add: write_outputs_def Let_def split: sum.splits prod.splits option.splits)

lemma success_iff_extracted:
  "success (fst (process_single_image cv sv self w p pr))
     \<longleftrightarrow> ocr (fst (process_single_image cv sv self w p pr)) \<noteq> None"
  by (auto simp: process_single_image_def Let_def write_outputs_keeps preprocess_step_def
      split: sum.splits prod.splits if_splits)

lemma full_disk_fields:
  "vision_call full_disk_services = vision_call example_services"
  "json_loads full_disk_services = json_loads example_services"
  "now_iso full_disk_services = now_iso example_services"
  "tie_up full_disk_services = tie_up example_services"
  by (simp_all add: full_disk_services_def)

lemma full_disk_call:
  "extract_text_and_analyze full_disk_services c p pr = extract_text_and_analyze example_services c p pr"
  unfolding extract_text_and_analyze_def full_disk_fields ..

text \<open>
  C1. The flag \<open>success\<close> is set as soon as the extraction has returned, before the two
  output files are written, and the handler of a later exception only records the error
  (\<open>success_iff_extracted\<close>). On a file system that refuses the markdown file the result
  therefore has \<open>success\<close> true together with the error text, no output path and no file
  written: the claim that a failed write leaves \<open>success\<close> false does not hold of the
  code.
\<close>

theorem success_despite_failed_write:
  "success (fst (process_single_image (example_cv None) full_disk_services
       (example_pipeline False False) example_world ''page.jpg'' None))
   \<and> error (fst (process_single_image (example_cv None) full_disk_services
       (example_pipeline False False) example_world ''page.jpg'' None))
      = Some ''No space left on device''
   \<and> output_markdown (fst (process_single_image (example_cv None) full_disk_services
       (example_pipeline False False) example_world ''page.jpg'' None)) = None
   \<and> output_json (fst (process_single_image (example_cv None) full_disk_services
       (example_pipeline False False) example_world ''page.jpg'' None)) = None
   \<and> files (snd (process_single_image (example_cv None) full_disk_services
       (example_pipeline False False) example_world ''page.jpg'' None)) = Map.empty"
proof -
  have s: "write_error full_disk_services = (\<lambda>p. Some (RefusedAtOpen ''No space left on device''))"
    "create_markdown full_disk_services = (\<lambda>d p. Inr ''# Notes'')"
    by (simp_all add: full_disk_services_def example_services_def)
  show ?thesis
    by (simp add: process_single_image_def preprocess_step_def example_pipeline_def
        example_world_def example_client_def full_disk_call example_call
        write_outputs_def write_text_def s Let_def)
qed

lemma trace_only_when_saved:
  "preprocessing (fst (process_single_image cv sv self w p pr)) \<noteq> None
     \<Longrightarrow> preprocess_enabled self \<and> save_processed self"
  by (auto simp: process_single_image_def Let_def write_outputs_keeps preprocess_step_def
      split: sum.splits prod.splits if_splits)

text \<open>
  C9. The metadata of \<open>process_image\<close> is stored in the result only in the branch that
  saves the processed image. With preprocessing on and saving off the image is normalized,
  the extraction succeeds, and the result carries no trace; with saving on the same run
  carries it.
\<close>

theorem trace_dropped_without_saving:
  "(\<exists>img md. process_image (example_cv None) ''page.jpg'' True True True = Inr (img, md)
       \<and> steps md = [Denoised, ContrastEnhanced])
   \<and> success (fst (process_single_image (example_cv None) example_services
       (example_pipeline True False) example_world ''page.jpg'' None))
   \<and> preprocessing (fst (process_single_image (example_cv None) example_services
       (example_pipeline True False) example_world ''page.jpg'' None)) = None
   \<and> preprocessing (fst (process_single_image (example_cv None) example_services
       (example_pipeline True True) example_world ''page.jpg'' None))
      = Some \<lparr>original_path = ''page.jpg'', original_size = (2, 3), rotation_applied = 0,
              steps = [Denoised, ContrastEnhanced], final_size = (2, 3)\<rparr>"
proof -
  let ?cv = "example_cv None"
  let ?md = "\<lparr>original_path = ''page.jpg'', original_size = (2, 3), rotation_applied = 0,
              steps = [Denoised, ContrastEnhanced], final_size = (2, 3)\<rparr>"
  have i: "imread ?cv ''page.jpg'' = Some [[10, 20, 30], [40, 50, 60]]"
    by (simp add: example_cv_def)
  have d: "detect_orientation ?cv [[10, 20, 30], [40, 50, 60]] = 0"
    by (simp add: detect_orientation_def example_cv_def)
  have n: "enhance_contrast ?cv (remove_noise ?cv [[10, 20, 30], [40, 50, 60]])
      = [[22, 42, 62], [82, 102, 122]]"
    by (simp add: remove_noise_def enhance_contrast_def example_cv_def)
  have e: "process_image ?cv ''page.jpg'' True True True = Inr ([[22, 42, 62], [82, 102, 122]], ?md)"
    by (simp add: process_image_def i d n shape_def)
  have s: "save_error example_services = (\<lambda>p. None)" "mkstemp example_services = ''/tmp/tmp0001.jpg''"
    "write_error example_services = (\<lambda>p. None)" "create_markdown example_services = (\<lambda>d p. Inr ''# Notes'')"
    by (simp_all add: example_services_def)
  show ?thesis
    by (simp add: e process_single_image_def preprocess_step_def example_pipeline_def
        example_world_def example_client_def example_call save_processed_image_def s
        write_outputs_def write_text_def Let_def)
qed

lemma process_each_length:
  "length (fst (process_each cv sv self w paths pr)) = length paths"
proof (induction paths arbitrary: w)
  case Nil
  show ?case by simp
next
  case (Cons a paths)
  obtain r w1 where p: "process_single_image cv sv self w a pr = (r, w1)"
    by (cases "process_single_image cv sv self w a pr")
  obtain rs w2 where q: "process_each cv sv self w1 paths pr = (rs, w2)"
    by (cases "process_each cv sv self w1 paths pr")
  from Cons.IH [of w1] q have "length rs = length paths" by simp
  then show ?case by (simp add: p q)
qed

lemma sort_paths_example: "sort [''photos/b.jpg'', ''photos/a.jpg''] = [''photos/a.jpg'', ''photos/b.jpg'']"
  by code_simp

lemma path_stem_examples: "path_stem ''photos/a.b.jpg'' = ''a.b'' \<and> path_stem ''x/.bashrc'' = ''.bashrc''
   \<and> path_stem ''page.jpg'' = ''page'' \<and> path_name ''a/b/c.txt'' = ''c.txt''"
  by (simp add: path_stem_def path_name_def Let_def)

text \<open>
  C2, as the code has it. When the pattern matches no file, \<open>process_directory\<close> returns
  the empty list at once and leaves the state as it was: no summary is built and no file
  is written. A summary, with \<open>total_images\<close> the number of matched files, is written
  when at least one file matched and the summary file can be written.
\<close>

theorem directory_summary:
  "(glob sv directory pattern = []
      \<longrightarrow> process_directory cv sv self w directory pattern pr = (Inr [], w))
   \<and> (glob sv directory pattern \<noteq> []
        \<and> write_error sv
            (path_join (output_dir self) (''batch_summary_'' @ now_stamp sv @ ''.json'')) = None
      \<longrightarrow> (\<exists>rs w' s. process_directory cv sv self w directory pattern pr = (Inr rs, w')
            \<and> files w' (path_join (output_dir self) (''batch_summary_'' @ now_stamp sv @ ''.json''))
                = Some (SummaryJson s)
            \<and> results s = rs
            \<and> total_images s = length (glob sv directory pattern)))"
proof (intro conjI impI)
  assume "glob sv directory pattern = []"
  then show "process_directory cv sv self w directory pattern pr = (Inr [], w)"
    by (simp add: process_directory_def)
next
  let ?paths = "sort (glob sv directory pattern)"
  let ?sp = "path_join (output_dir self) (''batch_summary_'' @ now_stamp sv @ ''.json'')"
  assume a: "glob sv directory pattern \<noteq> [] \<and> write_error sv ?sp = None"
  then have ne: "?paths \<noteq> []" by (metis length_sort length_0_conv)
  obtain rs w1 where p: "process_each cv sv self w ?paths pr = (rs, w1)"
    by (cases "process_each cv sv self w ?paths pr")
  have l: "length rs = length (glob sv directory pattern)"
    using process_each_length [of cv sv self w ?paths pr] p by simp
  show "\<exists>rs w' s. process_directory cv sv self w directory pattern pr = (Inr rs, w')
            \<and> files w' ?sp = Some (SummaryJson s)
            \<and> results s = rs
            \<and> total_images s = length (glob sv directory pattern)"
    using a ne p l by (simp add: process_directory_def Let_def write_text_def)
qed

theorem directory_summary_witness:
  "process_directory (example_cv None) example_services (example_pipeline False False)
       example_world ''empty'' ''*.jpg'' None = (Inr [], example_world)
   \<and> (\<exists>rs w' s. process_directory (example_cv None) example_services
                   (example_pipeline False False) example_world ''photos'' ''*.jpg'' None
                 = (Inr rs, w')
        \<and> files w' ''data/batch_summary_20241201_100000.json'' = Some (SummaryJson s)
        \<and> results s = rs
        \<and> total_images s = 2)"
proof -
  have g0: "glob example_services ''empty'' ''*.jpg'' = []"
    by (simp add: example_services_def)
  have g2: "glob example_services ''photos'' ''*.jpg'' = [''photos/b.jpg'', ''photos/a.jpg'']"
    by (simp add: example_services_def)
  have p: "path_join (output_dir (example_pipeline False False))
             (''batch_summary_'' @ now_stamp example_services @ ''.json'')
           = ''data/batch_summary_20241201_100000.json''"
    by (simp add: path_join_def example_pipeline_def example_services_def)
  have e: "write_error example_services ''data/batch_summary_20241201_100000.json'' = None"
    by (simp add: example_services_def)
  have a: "process_directory (example_cv None) example_services (example_pipeline False False)
       example_world ''empty'' ''*.jpg'' None = (Inr [], example_world)"
    using directory_summary [of example_services "''empty''" "''*.jpg''"] g0 by simp
  have b: "\<exists>rs w' s. process_directory (example_cv None) example_services
                   (example_pipeline False False) example_world ''photos'' ''*.jpg'' None
                 = (Inr rs, w')
        \<and> files w' ''data/batch_summary_20241201_100000.json'' = Some (SummaryJson s)
        \<and> results s = rs
        \<and> total_images s = 2"
    using directory_summary [of example_services "''photos''" "''*.jpg''" "example_cv None"
        "example_pipeline False False" example_world None] g2 p e
    by (simp add: numeral_2_eq_2)
  from a b show ?thesis by simp
qed

text \<open>
  The claim C2 as worded fails: on a directory without a match the call returns the empty
  list and the state is the one before the call, in which no file exists, so no summary
  with \<open>total_images = 0\<close> was persisted.
\<close>

theorem empty_directory_counterexample:
  "fst (process_directory (example_cv None) example_services (example_pipeline False False)
       example_world ''empty'' ''*.jpg'' None) = Inr []
   \<and> snd (process_directory (example_cv None) example_services (example_pipeline False False)
       example_world ''empty'' ''*.jpg'' None) = example_world
   \<and> dom (files example_world) = {}"
  by (simp add: process_directory_def example_services_def example_world_def)

end
